theory Spec2Isabelle
  imports Main
begin

section \<open>Data model of \<open>src/index.js\<close>\<close>

text \<open>
  The program is one sequential \<open>async\<close> pipeline. Every \<open>await\<close> of an external
  service either resolves to a value or rejects; a rejection is \<open>Inl\<close> of its message,
  as the exception would carry it.
\<close>

type_synonym 'a resp = "string + 'a"

text \<open>
  A Swarm upload tag as \<open>bee.createTag\<close> and \<open>bee.retrieveTag\<close> return it. The
  counters are chunk counts, hence natural numbers.
\<close>

record tag =
  uid :: nat
  split :: nat
  seen :: nat
  synced :: nat

text \<open>A postage batch of \<open>bee.getAllPostageBatch\<close>; \<open>batchTTL\<close> may be negative.\<close>

record batch =
  batchID :: string
  batchTTL :: int
  usable :: bool

text \<open>An artifact of the GitHub listing; \<open>created_at\<close> is the instant \<open>new Date\<close> reads.\<close>

record artifact =
  artifact_id :: int
  created_at :: int

text \<open>The option object handed to \<open>bee.uploadFilesFromDirectory\<close> (lines 74-82).\<close>

record upload_options =
  indexDocument :: string
  errorDocument :: string
  tag_opt :: "nat option"
  pin :: bool
  encrypt :: bool
  deferred :: bool
  redundancyLevel :: "nat option"

record wallet =
  privateKey :: string
  addressString :: string

text \<open>A template literal printed on the console: text pieces and interpolated values.\<close>

datatype piece = S string | N int | Undefined

text \<open>
  Everything the run does to the outside world, in program order: calls of the GitHub
  client, the file system, the Bee client, the progress bar, the timer and the console.
\<close>

datatype event =
    FsRm string
  | ListArtifacts "string option" "string option" "string option"
  | RequestZip "int option"
  | FetchZip string
  | Extract string
  | FsStat string
  | GetAllPostageBatch
  | CreateTag
  | UploadFiles string string upload_options
  | RetrieveTag nat
  | BarStart nat nat
  | BarSetTotal nat
  | BarUpdate nat
  | BarStop
  | SleepMillis nat
  | WalletFromV3 "string option" "string option"
  | MakeFeedTopic "string option"
  | MakeFeedWriter string string string
  | CreateFeedManifest string string string string
  | FeedUpload string string
  | ConsoleLog "piece list"
  | ConsoleError "piece list"

text \<open>
  How a function stops without returning: an exception with its message, a
  \<open>TypeError\<close> of the engine, \<open>process.exit\<close> with its code, or (in the model only)
  the script of tag snapshots is used up while the monitor is still polling.
\<close>

datatype stop = Threw string | ThrewTypeError | Exited nat | AwaitingTag

type_synonym 'a run = "event list \<times> (stop + 'a)"

definition emit :: "event list \<Rightarrow> 'a run \<Rightarrow> 'a run" where
  "emit es m = (es @ fst m, snd m)"

text \<open>
  Sequencing as \<open>await\<close> and \<open>;\<close> do it: the second step runs only when the first
  returned, and sees its value.
\<close>

definition bind :: "'a run \<Rightarrow> ('a \<Rightarrow> 'b run) \<Rightarrow> 'b run" where
  "bind m f = (case snd m of Inl s \<Rightarrow> (fst m, Inl s) | Inr x \<Rightarrow> emit (fst m) (f x))"

definition call :: "event \<Rightarrow> 'a resp \<Rightarrow> 'a run" where
  "call e r = ([e], case r of Inl msg \<Rightarrow> Inl (Threw msg) | Inr x \<Rightarrow> Inr x)"

definition say :: "event \<Rightarrow> unit run" where
  "say e = ([e], Inr ())"

definition throw :: "string \<Rightarrow> 'a run" where
  "throw msg = ([], Inl (Threw msg))"

definition exit :: "nat \<Rightarrow> 'a run" where
  "exit n = ([], Inl (Exited n))"

definition return :: "'a \<Rightarrow> 'a run" where
  "return x = ([], Inr x)"

section \<open>The replication monitor (\<open>waitForFileSynced\<close>, lines 112-147)\<close>

definition pollingTime :: nat where
  "pollingTime = 500"

definition pollingTrials :: nat where
  "pollingTrials = 15"

definition progress :: "tag \<Rightarrow> nat" where
  "progress t = seen t + synced t"

text \<open>
  The \<open>for\<close> loop, entered at its condition \<open>i < pollingTrials\<close> with the loop variable
  \<open>i\<close>, the variable \<open>syncProgress\<close> and the current \<open>tag\<close>. The list holds what the
  successive calls of \<open>bee.retrieveTag\<close> answer. The result is the value of \<open>synced\<close>
  when the loop is left.
\<close>

fun pollLoop :: "tag resp list \<Rightarrow> nat \<Rightarrow> nat \<Rightarrow> tag \<Rightarrow> bool run" where
  "pollLoop [] i syncProgress tg =
     (if i < pollingTrials then ([], Inl AwaitingTag) else ([], Inr False))"
| "pollLoop (r # rs) i syncProgress tg =
     (if i < pollingTrials then
        (case r of
           Inl e \<Rightarrow> ([RetrieveTag (uid tg)], Inl (Threw e))
         | Inr tg' \<Rightarrow>
             (let newSyncProgress = seen tg' + synced tg';
                  i' = (if newSyncProgress > syncProgress then 0 else i)
              in if newSyncProgress \<ge> split tg' then ([RetrieveTag (uid tg)], Inr True)
                 else emit [RetrieveTag (uid tg), BarSetTotal (split tg'),
                            BarUpdate newSyncProgress, SleepMillis pollingTime]
                        (pollLoop rs (i' + 1) newSyncProgress tg')))
      else ([], Inr False))"

definition waitForFileSynced :: "tag option \<Rightarrow> tag resp list \<Rightarrow> unit run" where
  "waitForFileSynced tg0 rs =
     (case tg0 of
        None \<Rightarrow> ([], Inl ThrewTypeError)
      | Some tg \<Rightarrow>
          (case pollLoop rs 0 0 tg of
             (es, Inl s) \<Rightarrow> (BarStart (split tg) 0 # es, Inl s)
           | (es, Inr synced_flag) \<Rightarrow>
               (if synced_flag
                then (BarStart (split tg) 0 # es @
                        [BarStop, ConsoleLog [S ''Data has been synced on Swarm network'']],
                      Inr ())
                else (BarStart (split tg) 0 # es @
                        [BarStop, ConsoleError [S ''Data syncing timeout'']],
                      Inl (Exited 1)))))"

text \<open>The polls a trace holds, and what the progress bar was told, in order.\<close>

fun polls :: "event list \<Rightarrow> nat" where
  "polls [] = 0"
| "polls (RetrieveTag u # es) = Suc (polls es)"
| "polls (e # es) = polls es"

fun notifications :: "event list \<Rightarrow> (nat \<times> nat) list" where
  "notifications (BarSetTotal n # BarUpdate p # es) = (p, n) # notifications es"
| "notifications (e # es) = notifications es"
| "notifications [] = []"

section \<open>The environment of one run\<close>

text \<open>
  The configuration read from \<open>process.env\<close> and the answer of every external call the
  run can make, in the order the program makes them. \<open>tagResults\<close> scripts the successive
  answers of \<open>bee.retrieveTag\<close>.
\<close>

record world =
  OWNER :: "string option"
  REPO :: "string option"
  BUILD_NAME :: "string option"
  V3_WALLET :: "string option"
  V3_PASS :: "string option"
  TOPIC :: "string option"
  beeUrl :: string
  rmResult :: "unit resp"
  artifactsResult :: "artifact list option resp"
  zipRequestResult :: "string resp"
  zipFetchResult :: "unit resp"
  extractResult :: "unit resp"
  statOutDir :: "bool resp"
  statIndexHtml :: "unit resp"
  postageBatches :: "batch list resp"
  createTagResult :: "tag option resp"
  uploadResult :: "string resp"
  tagResults :: "tag resp list"
  walletResult :: "wallet resp"
  feedTopicResult :: "string resp"
  feedWriterResult :: "unit resp"
  feedManifestResult :: "string resp"
  feedUploadResult :: "string resp"

definition OUT_DIR :: string where
  "OUT_DIR = ''./artifact''"

section \<open>Artifact selection (\<open>getArtifactId\<close>, lines 20-38)\<close>

text \<open>
  Lines 31-37 on the listing \<open>response.data.artifacts\<close>, which may be absent.
  \<open>Array.prototype.sort\<close> is stable, and so is \<open>sort_key\<close>; the comparator orders by
  descending creation instant. \<open>[0]?.id\<close> is \<open>undefined\<close> on an empty array.
\<close>

definition noArtifactsMessage :: "string option \<Rightarrow> string" where
  "noArtifactsMessage name =
     ''No artifacts found'' @
       (case name of
          None \<Rightarrow> []
        | Some n \<Rightarrow> if n = [] then [] else '' with name '' @ [CHR 0x22] @ n @ [CHR 0x22])"

definition pickArtifact :: "string option \<Rightarrow> artifact list option \<Rightarrow> int option run" where
  "pickArtifact name web3BuildArtifacts =
     (case web3BuildArtifacts of
        None \<Rightarrow> throw (noArtifactsMessage name)
      | Some arts \<Rightarrow>
          if length arts = 0 then throw (noArtifactsMessage name)
          else (case sort_key (\<lambda>a. - created_at a) arts of
                  [] \<Rightarrow> return None
                | a # _ \<Rightarrow> return (Some (artifact_id a))))"

definition getArtifactId :: "world \<Rightarrow> int option run" where
  "getArtifactId w =
     bind (call (ListArtifacts (OWNER w) (REPO w) (BUILD_NAME w)) (artifactsResult w))
       (pickArtifact (BUILD_NAME w))"

definition downloadAndExtractArtifact :: "world \<Rightarrow> int option \<Rightarrow> unit run" where
  "downloadAndExtractArtifact w artifactId =
     bind (call (RequestZip artifactId) (zipRequestResult w)) (\<lambda>zipUrl.
     bind (call (FetchZip zipUrl) (zipFetchResult w)) (\<lambda>_.
     bind (call (Extract OUT_DIR) (extractResult w)) (\<lambda>_.
     say (ConsoleLog [S ''Artifact extracted!'']))))"

section \<open>Publishing (\<open>upload\<close>, \<open>updateFeedAndPrint\<close>, \<open>writeFeed\<close>, lines 66-110)\<close>

definition eligible :: "batch \<Rightarrow> bool" where
  "eligible b = (batchTTL b > 0 \<and> usable b)"

text \<open>Lines 67-70: the first batch that passes the filter, or the exception.\<close>

definition selectBatch :: "batch list \<Rightarrow> batch run" where
  "selectBatch bs =
     (case filter eligible bs of
        [] \<Rightarrow> throw ''No usable postage batch found''
      | b # _ \<Rightarrow> return b)"

definition writeFeed ::
  "world \<Rightarrow> string \<Rightarrow> wallet \<Rightarrow> string \<Rightarrow> string \<Rightarrow> (string \<times> string) run" where
  "writeFeed w stamp wl topic chunkReference =
     bind (call (MakeFeedWriter ''sequence'' topic (privateKey wl)) (feedWriterResult w)) (\<lambda>_.
     bind (call (CreateFeedManifest stamp ''sequence'' topic (addressString wl))
             (feedManifestResult w)) (\<lambda>manifest.
     bind (call (FeedUpload stamp chunkReference) (feedUploadResult w)) (\<lambda>reference.
     return (reference, manifest))))"

definition updateFeedAndPrint :: "world \<Rightarrow> string \<Rightarrow> string \<Rightarrow> unit run" where
  "updateFeedAndPrint w stamp chunkReference =
     bind (call (WalletFromV3 (V3_WALLET w) (V3_PASS w)) (walletResult w)) (\<lambda>wl.
     bind (call (MakeFeedTopic (TOPIC w)) (feedTopicResult w)) (\<lambda>topic.
     bind (writeFeed w stamp wl topic chunkReference) (\<lambda>res.
     bind (say (ConsoleLog [S ''Feed Manifest URL: '', S (beeUrl w), S ''/bzz/'',
                            S (snd res), S ''/''])) (\<lambda>_.
     say (ConsoleLog [S ''Successfully uploaded to feed''])))))"

definition uploadOptions :: "tag option \<Rightarrow> upload_options" where
  "uploadOptions tg =
     \<lparr>indexDocument = ''index.html'', errorDocument = ''404.html'',
      tag_opt = map_option uid tg, pin = True, encrypt = False, deferred = True,
      redundancyLevel = None\<rparr>"

definition upload :: "world \<Rightarrow> unit run" where
  "upload w =
     bind (call GetAllPostageBatch (postageBatches w)) (\<lambda>bs.
     bind (selectBatch bs) (\<lambda>b.
     bind (call CreateTag (createTagResult w)) (\<lambda>tg.
     bind (say (ConsoleLog [S ''Uploading data''])) (\<lambda>_.
     bind (call (UploadFiles (batchID b) OUT_DIR (uploadOptions tg)) (uploadResult w))
       (\<lambda>reference.
     bind (say (ConsoleLog [S ''Uploading done: '', S (beeUrl w), S ''/bzz/'',
                            S reference, S ''/''])) (\<lambda>_.
     bind (say (ConsoleLog [S ''Ref: '', S reference])) (\<lambda>_.
     bind (say (ConsoleLog
                  [S ''Waiting for file chunks to be synced on Swarm network...''])) (\<lambda>_.
     bind (waitForFileSynced tg (tagResults w)) (\<lambda>_.
     bind (say (ConsoleLog [S ''Uploading was successful!''])) (\<lambda>_.
     bind (say (ConsoleLog [S ''Uploading to Feed...''])) (\<lambda>_.
     updateFeedAndPrint w (batchID b) reference)))))))))))"

section \<open>The orchestrator (\<open>main\<close>, lines 157-178)\<close>

text \<open>Lines 169-174: \<open>fs.stat\<close> of the entry point inside \<open>try\<close>/\<open>catch\<close>.\<close>

definition checkIndexHtml :: "world \<Rightarrow> unit run" where
  "checkIndexHtml w =
     (case statIndexHtml w of
        Inl e \<Rightarrow>
          emit [FsStat (OUT_DIR @ ''/index.html''),
                ConsoleError [S ''No index.html in '', S OUT_DIR]] (exit 1)
      | Inr _ \<Rightarrow> say (FsStat (OUT_DIR @ ''/index.html'')))"

definition main :: "world \<Rightarrow> string run" where
  "main w =
     bind (call (FsRm OUT_DIR) (rmResult w)) (\<lambda>_.
     bind (getArtifactId w) (\<lambda>artifactId.
     bind (say (ConsoleLog [S ''Last artifact ID: '',
                            (case artifactId of None \<Rightarrow> Undefined | Some n \<Rightarrow> N n)])) (\<lambda>_.
     bind (downloadAndExtractArtifact w artifactId) (\<lambda>_.
     bind (call (FsStat OUT_DIR) (statOutDir w)) (\<lambda>isDirectory.
     bind (if \<not> isDirectory
           then emit [ConsoleError [S ''Directory '', S OUT_DIR, S '' does not exist'']]
                  (exit 1)
           else return ()) (\<lambda>_.
     bind (checkIndexHtml w) (\<lambda>_.
     bind (upload w) (\<lambda>_.
     return ''done''))))))))"

text \<open>Line 180: \<open>main().then(r => console.log(r))\<close>.\<close>

definition program :: "world \<Rightarrow> unit run" where
  "program w = bind (main w) (\<lambda>r. say (ConsoleLog [S r]))"

section \<open>Reading traces\<close>

text \<open>The value of the variable \<open>tag\<close> after the monitor has consumed the answers \<open>rs\<close>.\<close>

fun tagAfter :: "tag \<Rightarrow> tag resp list \<Rightarrow> tag" where
  "tagAfter tg [] = tg"
| "tagAfter tg (Inr tg' # rs) = tagAfter tg' rs"
| "tagAfter tg (Inl e # rs) = tagAfter tg rs"

text \<open>Calls of the Bee client, and among them those that begin an upload.\<close>

fun beeCall :: "event \<Rightarrow> bool" where
  "beeCall GetAllPostageBatch = True"
| "beeCall CreateTag = True"
| "beeCall (UploadFiles b d opts) = True"
| "beeCall (RetrieveTag u) = True"
| "beeCall (MakeFeedTopic t) = True"
| "beeCall (MakeFeedWriter ty t k) = True"
| "beeCall (CreateFeedManifest s ty t a) = True"
| "beeCall (FeedUpload s r) = True"
| "beeCall e = False"

fun startsUpload :: "event \<Rightarrow> bool" where
  "startsUpload CreateTag = True"
| "startsUpload (UploadFiles b d opts) = True"
| "startsUpload e = False"

section \<open>Example data\<close>

definition snapshot :: "nat \<Rightarrow> tag" where
  "snapshot p = \<lparr>uid = 7, split = 1000, seen = p, synced = 0\<rparr>"

definition emptyUpload :: tag where
  "emptyUpload = \<lparr>uid = 7, split = 0, seen = 0, synced = 0\<rparr>"

definition expiredBatch :: batch where
  "expiredBatch = \<lparr>batchID = ''b0'', batchTTL = 0, usable = True\<rparr>"

definition liveBatch :: batch where
  "liveBatch = \<lparr>batchID = ''b1'', batchTTL = 100, usable = True\<rparr>"

definition exampleWorld :: world where
  "exampleWorld =
     \<lparr>OWNER = Some ''nipsysdev'', REPO = Some ''site'', BUILD_NAME = Some ''web3-build'',
      V3_WALLET = Some ''{}'', V3_PASS = Some ''secret'', TOPIC = Some ''site'',
      beeUrl = ''http://localhost:1633'',
      rmResult = Inr (),
      artifactsResult = Inr (Some [\<lparr>artifact_id = 11, created_at = 100\<rparr>,
                                   \<lparr>artifact_id = 12, created_at = 300\<rparr>,
                                   \<lparr>artifact_id = 13, created_at = 200\<rparr>]),
      zipRequestResult = Inr ''https://example.org/12.zip'',
      zipFetchResult = Inr (),
      extractResult = Inr (),
      statOutDir = Inr True,
      statIndexHtml = Inr (),
      postageBatches = Inr [expiredBatch, liveBatch],
      createTagResult = Inr (Some (snapshot 0)),
      uploadResult = Inr ''c0ffee'',
      tagResults = [Inr (snapshot 100), Inr (snapshot 250), Inr (snapshot 1000)],
      walletResult = Inr \<lparr>privateKey = ''k'', addressString = ''0xabc''\<rparr>,
      feedTopicResult = Inr ''t0'',
      feedWriterResult = Inr (),
      feedManifestResult = Inr ''feed01'',
      feedUploadResult = Inr ''entry01''\<rparr>"

section \<open>Traces and results of the building blocks\<close>

lemma fst_bind: "fst (bind m f) = fst m @ (case snd m of Inl s \<Rightarrow> [] | Inr x \<Rightarrow> fst (f x))"
  by (simp add: bind_def emit_def split: sum.splits)

lemma snd_bind: "snd (bind m f) = (case snd m of Inl s \<Rightarrow> Inl s | Inr x \<Rightarrow> snd (f x))"
  by (simp add: bind_def emit_def split: sum.splits)

lemma fst_call [simp]: "fst (call e r) = [e]"
  by (simp add: call_def)

lemma snd_call [simp]:
  "snd (call e r) = (case r of Inl msg \<Rightarrow> Inl (Threw msg) | Inr x \<Rightarrow> Inr x)"
  by (simp add: call_def)

lemma fst_say [simp]: "fst (say e) = [e]"
  by (simp add: say_def)

lemma snd_say [simp]: "snd (say e) = Inr ()"
  by (simp add: say_def)

lemma fst_throw [simp]: "fst (throw msg) = []"
  by (simp add: throw_def)

lemma snd_throw [simp]: "snd (throw msg) = Inl (Threw msg)"
  by (simp add: throw_def)

lemma fst_exit [simp]: "fst (exit n) = []"
  by (simp add: exit_def)

lemma snd_exit [simp]: "snd (exit n) = Inl (Exited n)"
  by (simp add: exit_def)

lemma fst_return [simp]: "fst (return x) = []"
  by (simp add: return_def)

lemma snd_return [simp]: "snd (return x) = Inr x"
  by (simp add: return_def)

lemma fst_emit [simp]: "fst (emit es m) = es @ fst m"
  by (simp add: emit_def)

lemma snd_emit [simp]: "snd (emit es m) = snd m"
  by (simp add: emit_def)

lemma fst_selectBatch [simp]: "fst (selectBatch bs) = []"
  by (simp add: selectBatch_def split: list.splits)

lemma fst_pickArtifact [simp]: "fst (pickArtifact name arts) = []"
  by (simp add: pickArtifact_def split: option.splits list.splits)

lemma fst_waitForFileSynced:
  "fst (waitForFileSynced (Some tg) rs) =
     BarStart (split tg) 0 # fst (pollLoop rs 0 0 tg) @
       (case snd (pollLoop rs 0 0 tg) of
          Inl s \<Rightarrow> []
        | Inr b \<Rightarrow> if b then [BarStop, ConsoleLog [S ''Data has been synced on Swarm network'']]
                   else [BarStop, ConsoleError [S ''Data syncing timeout'']])"
  by (simp add: waitForFileSynced_def split: prod.splits sum.splits)

lemma snd_waitForFileSynced:
  "snd (waitForFileSynced (Some tg) rs) =
     (case snd (pollLoop rs 0 0 tg) of
        Inl s \<Rightarrow> Inl s
      | Inr b \<Rightarrow> if b then Inr () else Inl (Exited 1))"
  by (simp add: waitForFileSynced_def split: prod.splits sum.splits)

lemma polls_append: "polls (es @ es') = polls es + polls es'"
  by (induction es rule: polls.induct) auto

lemma notifications_snoc_stop: "notifications (es @ [BarStop, e]) = notifications es"
  by (induction es rule: notifications.induct) auto

section \<open>The stall budget of the monitor\<close>

text \<open>
  From any loop state with \<open>i \<le> 15\<close>: while the snapshots neither increase nor reach
  \<open>split\<close>, the loop polls exactly \<open>15 - i\<close> times and leaves with \<open>synced = false\<close>.
\<close>

lemma pollLoop_stalled:
  assumes "sorted_wrt (\<ge>) (sp # map progress ts)"
    and "\<forall>t\<in>set ts. progress t < split t"
    and "i \<le> pollingTrials"
  shows "snd (pollLoop (map Inr ts) i sp tg) =
           (if length ts < pollingTrials - i then Inl AwaitingTag else Inr False)
       \<and> polls (fst (pollLoop (map Inr ts) i sp tg)) = min (length ts) (pollingTrials - i)"
  using assms
proof (induction ts arbitrary: i sp tg)
  case Nil
  then show ?case by auto
next
  case (Cons t ts)
  show ?case
  proof (cases "i < pollingTrials")
    case False
    with Cons.prems show ?thesis by simp
  next
    case True
    from Cons.prems have le: "progress t \<le> sp" and lt: "progress t < split t" by auto
    from Cons.prems have s: "sorted_wrt (\<ge>) (progress t # map progress ts)" by auto
    from Cons.prems have a: "\<forall>t\<in>set ts. progress t < split t" by auto
    from True have i: "i + 1 \<le> pollingTrials" by simp
    note IH = Cons.IH [OF s a i, of t]
    from le lt True IH show ?thesis
      by (auto simp: progress_def emit_def Let_def)
  qed
qed

text \<open>
  C2. When no snapshot shows more progress than the one before it (the first: than 0) and
  none reaches \<open>split\<close>, the monitor is still polling after fewer than 15 polls, and with
  the 15th poll it stops the bar and exits the process with code 1; it never polls a
  16th time.
\<close>

theorem waitForFileSynced_stall_timeout:
  assumes "sorted_wrt (\<ge>) (0 # map progress ts)"
    and "\<forall>t\<in>set ts. progress t < split t"
  shows "snd (waitForFileSynced (Some tg) (map Inr ts)) =
           (if length ts < 15 then Inl AwaitingTag else Inl (Exited 1))
       \<and> polls (fst (waitForFileSynced (Some tg) (map Inr ts))) = min (length ts) 15"
proof -
  have "0 \<le> pollingTrials" by simp
  from pollLoop_stalled [OF assms this, of tg]
  show ?thesis
    by (simp add: snd_waitForFileSynced fst_waitForFileSynced pollingTrials_def polls_append
          split: sum.splits)
qed

theorem waitForFileSynced_stall_timeout_witness:
  "snd (waitForFileSynced (Some (snapshot 0)) (map Inr (replicate 15 (snapshot 0)))) =
     Inl (Exited 1)
   \<and> polls (fst (waitForFileSynced (Some (snapshot 0))
                   (map Inr (replicate 15 (snapshot 0))))) = 15
   \<and> snd (waitForFileSynced (Some (snapshot 0)) (map Inr (replicate 14 (snapshot 0)))) =
       Inl AwaitingTag"
proof -
  have h1: "sorted_wrt (\<ge>) (0 # map progress (replicate n (snapshot 0)))" for n
    by (simp add: sorted_wrt_iff_nth_less progress_def snapshot_def)
  have h2: "\<forall>t\<in>set (replicate n (snapshot 0)). progress t < split t" for n
    by (simp add: progress_def snapshot_def)
  show ?thesis
    using waitForFileSynced_stall_timeout [OF h1 [of 15] h2 [of 15], of "snapshot 0"]
      waitForFileSynced_stall_timeout [OF h1 [of 14] h2 [of 14], of "snapshot 0"]
    by simp
qed

text \<open>
  C1. The claim: after a poll that observes an increase, the monitor gives up only after
  15 further polls without an increase. In the loop the increase sets \<open>i = 0\<close>, the
  loop's own \<open>i++\<close> then makes it 1, and 14 further polls without an increase exhaust
  the budget. Here 14 stalled polls, one increase and 13 stalled polls leave the monitor
  polling; one more stalled poll (the 14th after the increase, the 29th in all) ends the
  run with exit code 1, and the 30th snapshot is never fetched.
\<close>

theorem waitForFileSynced_budget_after_increase:
  "snd (waitForFileSynced (Some (snapshot 0))
          (map Inr (replicate 14 (snapshot 0) @ [snapshot 1] @ replicate 13 (snapshot 1)))) =
     Inl AwaitingTag
   \<and> snd (waitForFileSynced (Some (snapshot 0))
          (map Inr (replicate 14 (snapshot 0) @ [snapshot 1] @ replicate 15 (snapshot 1)))) =
     Inl (Exited 1)
   \<and> polls (fst (waitForFileSynced (Some (snapshot 0))
          (map Inr (replicate 14 (snapshot 0) @ [snapshot 1] @ replicate 15 (snapshot 1))))) =
     29"
  by code_simp

section \<open>Completion\<close>

lemma pollLoop_complete:
  assumes "snd (pollLoop pre i sp tg) = Inl AwaitingTag"
    and "split t \<le> progress t"
  shows "pollLoop (pre @ Inr t # rest) i sp tg =
           (fst (pollLoop pre i sp tg) @ [RetrieveTag (uid (tagAfter tg pre))], Inr True)"
  using assms
proof (induction pre arbitrary: i sp tg)
  case Nil
  then show ?case by (auto simp: progress_def split: if_splits)
next
  case (Cons r pre)
  show ?case
  proof (cases r)
    case (Inl e)
    with Cons.prems show ?thesis by (auto split: if_splits)
  next
    case (Inr tg')
    with Cons.prems Cons.IH show ?thesis
      by (auto simp: emit_def Let_def split: if_splits)
  qed
qed

text \<open>
  C3. Whenever the monitor is still polling after the answers \<open>pre\<close> (whatever is left of
  its stall budget), a next snapshot with \<open>seen + synced \<ge> split\<close> ends the run with
  success at once: that poll is followed only by stopping the bar and the success
  message, with no sleep and no further poll, and later answers are never requested. With
  \<open>split = 0\<close> this happens on the very first poll.
\<close>

theorem waitForFileSynced_synced_at_once:
  "(snd (waitForFileSynced (Some tg) pre) = Inl AwaitingTag \<and> split t \<le> seen t + synced t \<longrightarrow>
      waitForFileSynced (Some tg) (pre @ Inr t # rest) =
        (fst (waitForFileSynced (Some tg) pre) @
           [RetrieveTag (uid (tagAfter tg pre)), BarStop,
            ConsoleLog [S ''Data has been synced on Swarm network'']], Inr ()))
   \<and> (split t = 0 \<longrightarrow>
      waitForFileSynced (Some tg) (Inr t # rest) =
        ([BarStart (split tg) 0, RetrieveTag (uid tg), BarStop,
          ConsoleLog [S ''Data has been synced on Swarm network'']], Inr ()))"
proof (intro conjI impI)
  assume a: "snd (waitForFileSynced (Some tg) pre) = Inl AwaitingTag
               \<and> split t \<le> seen t + synced t"
  then have p: "snd (pollLoop pre 0 0 tg) = Inl AwaitingTag"
    by (auto simp: snd_waitForFileSynced split: sum.splits if_splits)
  from a have "split t \<le> progress t" by (simp add: progress_def)
  from pollLoop_complete [OF p this, of rest] p
  show "waitForFileSynced (Some tg) (pre @ Inr t # rest) =
        (fst (waitForFileSynced (Some tg) pre) @
           [RetrieveTag (uid (tagAfter tg pre)), BarStop,
            ConsoleLog [S ''Data has been synced on Swarm network'']], Inr ())"
    by (simp add: prod_eq_iff fst_waitForFileSynced snd_waitForFileSynced)
next
  assume "split t = 0"
  then show "waitForFileSynced (Some tg) (Inr t # rest) =
        ([BarStart (split tg) 0, RetrieveTag (uid tg), BarStop,
          ConsoleLog [S ''Data has been synced on Swarm network'']], Inr ())"
    by (simp add: waitForFileSynced_def pollingTrials_def)
qed

theorem waitForFileSynced_synced_at_once_witness:
  "waitForFileSynced (Some (snapshot 0))
     ([Inr (snapshot 100), Inr (snapshot 250)] @ Inr (snapshot 1000) # [Inr (snapshot 1000)]) =
     (fst (waitForFileSynced (Some (snapshot 0)) [Inr (snapshot 100), Inr (snapshot 250)]) @
        [RetrieveTag 7, BarStop, ConsoleLog [S ''Data has been synced on Swarm network'']],
      Inr ())
   \<and> waitForFileSynced (Some (snapshot 0)) (Inr emptyUpload # [Inr (snapshot 1)]) =
       ([BarStart 1000 0, RetrieveTag 7, BarStop,
         ConsoleLog [S ''Data has been synced on Swarm network'']], Inr ())"
proof -
  have h1: "snd (waitForFileSynced (Some (snapshot 0)) [Inr (snapshot 100), Inr (snapshot 250)])
              = Inl AwaitingTag
            \<and> split (snapshot 1000) \<le> seen (snapshot 1000) + synced (snapshot 1000)"
    by (simp add: snd_waitForFileSynced snapshot_def pollingTrials_def emit_def)
  have h2: "split emptyUpload = 0"
    by (simp add: emptyUpload_def)
  have u: "uid (tagAfter (snapshot 0) [Inr (snapshot 100), Inr (snapshot 250)]) = 7"
    by (simp add: snapshot_def)
  have s: "split (snapshot 0) = 1000" "uid (snapshot 0) = 7"
    by (simp_all add: snapshot_def)
  from waitForFileSynced_synced_at_once
         [where tg = "snapshot 0" and pre = "[Inr (snapshot 100), Inr (snapshot 250)]"
            and t = "snapshot 1000" and rest = "[Inr (snapshot 1000)]"]
       waitForFileSynced_synced_at_once
         [where tg = "snapshot 0" and t = emptyUpload and rest = "[Inr (snapshot 1)]"]
       h1 h2 u s
  show ?thesis by simp
qed

section \<open>What the progress bar is told\<close>

lemma pollLoop_notifications:
  "notifications (fst (pollLoop rs i sp tg)) =
     [(progress t, split t).
        Inr t \<leftarrow> take (polls (fst (pollLoop rs i sp tg))) rs, progress t < split t]"
proof (induction rs arbitrary: i sp tg)
  case Nil
  then show ?case by simp
next
  case (Cons r rs)
  show ?case
  proof (cases r)
    case (Inl e)
    then show ?thesis by simp
  next
    case (Inr tg')
    with Cons.IH show ?thesis
      by (simp add: emit_def Let_def progress_def)
  qed
qed

text \<open>
  C9, as the code has it. The bar is told \<open>(progress, split)\<close> for exactly those polled
  snapshots that were retrieved and are not yet complete, in order: a poll that completes
  replication (and one whose retrieval fails) is followed by no \<open>setTotal\<close>/\<open>update\<close>.
\<close>

theorem waitForFileSynced_notifications:
  "notifications (fst (waitForFileSynced (Some tg) rs)) =
     [(progress t, split t).
        Inr t \<leftarrow> take (polls (fst (waitForFileSynced (Some tg) rs))) rs,
        progress t < split t]"
  using pollLoop_notifications [of rs 0 0 tg]
  by (simp add: fst_waitForFileSynced polls_append notifications_snoc_stop split: sum.splits)

text \<open>
  The claim as stated fails on the completing poll: one poll is made, the snapshot is
  complete, and the bar is only started and stopped.
\<close>

theorem waitForFileSynced_completing_poll_silent:
  "fst (waitForFileSynced (Some (snapshot 0)) [Inr (snapshot 1000)]) =
     [BarStart 1000 0, RetrieveTag 7, BarStop,
      ConsoleLog [S ''Data has been synced on Swarm network'']]
   \<and> polls (fst (waitForFileSynced (Some (snapshot 0)) [Inr (snapshot 1000)])) = 1
   \<and> notifications (fst (waitForFileSynced (Some (snapshot 0)) [Inr (snapshot 1000)])) \<noteq>
       [(progress (snapshot 1000), split (snapshot 1000))]"
  by code_simp

section \<open>Selecting the postage batch\<close>

text \<open>
  C4. Selection returns a batch exactly when it is the first one in the list with
  \<open>batchTTL > 0\<close> and \<open>usable\<close> (everything before it fails the test), and it throws
  \<open>No usable postage batch found\<close> exactly when no batch of the list passes the test.
  It has no effect of its own.
\<close>

theorem selectBatch_first_eligible:
  "(snd (selectBatch bs) = Inr b \<longleftrightarrow>
      (\<exists>pre post. bs = pre @ b # post \<and> 0 < batchTTL b \<and> usable b
         \<and> (\<forall>x\<in>set pre. \<not> (0 < batchTTL x \<and> usable x))))
   \<and> (snd (selectBatch bs) = Inl (Threw ''No usable postage batch found'') \<longleftrightarrow>
        (\<forall>x\<in>set bs. \<not> (0 < batchTTL x \<and> usable x)))
   \<and> fst (selectBatch bs) = []"
proof -
  have "filter eligible bs = [] \<longleftrightarrow> (\<forall>x\<in>set bs. \<not> (0 < batchTTL x \<and> usable x))"
    by (simp add: filter_empty_conv eligible_def)
  moreover have "(\<exists>ys. filter eligible bs = b # ys) \<longleftrightarrow>
      (\<exists>pre post. bs = pre @ b # post \<and> 0 < batchTTL b \<and> usable b
         \<and> (\<forall>x\<in>set pre. \<not> (0 < batchTTL x \<and> usable x)))"
    by (auto simp: filter_eq_Cons_iff eligible_def)
  ultimately show ?thesis
    by (cases "filter eligible bs") (simp_all add: selectBatch_def throw_def return_def)
qed

theorem selectBatch_first_eligible_witness:
  "snd (selectBatch [expiredBatch, liveBatch]) = Inr liveBatch
   \<and> snd (selectBatch [expiredBatch]) = Inl (Threw ''No usable postage batch found'')"
proof -
  have "[expiredBatch, liveBatch] = [expiredBatch] @ liveBatch # []
          \<and> 0 < batchTTL liveBatch \<and> usable liveBatch
          \<and> (\<forall>x\<in>set [expiredBatch]. \<not> (0 < batchTTL x \<and> usable x))"
    by (simp add: expiredBatch_def liveBatch_def)
  then have h1: "\<exists>pre post. [expiredBatch, liveBatch] = pre @ liveBatch # post
          \<and> 0 < batchTTL liveBatch \<and> usable liveBatch
          \<and> (\<forall>x\<in>set pre. \<not> (0 < batchTTL x \<and> usable x))"
    by blast
  have h2: "\<forall>x\<in>set [expiredBatch]. \<not> (0 < batchTTL x \<and> usable x)"
    by (simp add: expiredBatch_def)
  from selectBatch_first_eligible [of "[expiredBatch, liveBatch]" liveBatch] h1
  have "snd (selectBatch [expiredBatch, liveBatch]) = Inr liveBatch" by blast
  moreover from selectBatch_first_eligible [of "[expiredBatch]" liveBatch] h2
  have "snd (selectBatch [expiredBatch]) = Inl (Threw ''No usable postage batch found'')"
    by blast
  ultimately show ?thesis by simp
qed

section \<open>Selecting the artifact\<close>

lemma sort_key_head_least:
  assumes "sort_key f xs = a # ys"
  shows "a \<in> set xs \<and> (\<forall>b\<in>set xs. f a \<le> f b)"
proof -
  have "a \<in> set (sort_key f xs)" using assms by simp
  then have 1: "a \<in> set xs" by simp
  have "sorted (map f (sort_key f xs))" by simp
  with assms have "\<forall>b\<in>set ys. f a \<le> f b" by simp
  moreover have "set xs = insert a (set ys)"
    using assms by (metis list.simps(15) set_sort)
  ultimately show ?thesis using 1 by auto
qed

text \<open>
  C5. When GitHub answers with a list of artifacts, \<open>getArtifactId\<close> throws
  \<open>No artifacts found\<close> exactly when the list is empty; otherwise it returns the id of an
  artifact of the list whose creation instant is the greatest.
\<close>

theorem getArtifactId_newest:
  assumes "artifactsResult w = Inr (Some arts)"
  shows "(snd (getArtifactId w) = Inl (Threw (noArtifactsMessage (BUILD_NAME w))) \<longleftrightarrow> arts = [])
       \<and> (arts \<noteq> [] \<longrightarrow>
            (\<exists>a\<in>set arts. snd (getArtifactId w) = Inr (Some (artifact_id a))
               \<and> (\<forall>b\<in>set arts. created_at b \<le> created_at a)))"
proof (cases "arts = []")
  case True
  with assms show ?thesis
    by (simp add: getArtifactId_def snd_bind pickArtifact_def)
next
  case False
  then have "sort_key (\<lambda>a. - created_at a) arts \<noteq> []"
    by (metis length_0_conv length_sort)
  then obtain a ys where s: "sort_key (\<lambda>a. - created_at a) arts = a # ys"
    by (cases "sort_key (\<lambda>a. - created_at a) arts") auto
  from sort_key_head_least [OF s]
  have "a \<in> set arts" "\<forall>b\<in>set arts. created_at b \<le> created_at a"
    by auto
  moreover from assms False s have "snd (getArtifactId w) = Inr (Some (artifact_id a))"
    by (simp add: getArtifactId_def snd_bind pickArtifact_def)
  ultimately show ?thesis using False by auto
qed

theorem getArtifactId_newest_witness:
  "snd (getArtifactId exampleWorld) = Inr (Some 12)
   \<and> snd (getArtifactId (exampleWorld\<lparr>artifactsResult := Inr (Some [])\<rparr>)) =
       Inl (Threw (noArtifactsMessage (Some ''web3-build'')))"
proof -
  let ?arts = "[\<lparr>artifact_id = 11, created_at = 100\<rparr>, \<lparr>artifact_id = 12, created_at = 300\<rparr>,
                \<lparr>artifact_id = 13, created_at = 200\<rparr>]"
  have h1: "artifactsResult exampleWorld = Inr (Some ?arts)"
    by (simp add: exampleWorld_def)
  have ne: "?arts \<noteq> []" by simp
  from getArtifactId_newest [OF h1] ne
  obtain a where a: "a \<in> set ?arts"
    and r: "snd (getArtifactId exampleWorld) = Inr (Some (artifact_id a))"
    and m: "\<forall>b\<in>set ?arts. created_at b \<le> created_at a"
    by blast
  from m have "300 \<le> created_at a" by simp
  with a have "artifact_id a = 12" by auto
  with r have 1: "snd (getArtifactId exampleWorld) = Inr (Some 12)" by simp
  have h2: "artifactsResult (exampleWorld\<lparr>artifactsResult := Inr (Some [])\<rparr>) = Inr (Some [])"
    by simp
  have b: "BUILD_NAME (exampleWorld\<lparr>artifactsResult := Inr (Some [])\<rparr>) = Some ''web3-build''"
    by (simp add: exampleWorld_def)
  from getArtifactId_newest [OF h2] b
  have "snd (getArtifactId (exampleWorld\<lparr>artifactsResult := Inr (Some [])\<rparr>)) =
       Inl (Threw (noArtifactsMessage (Some ''web3-build'')))"
    by simp
  with 1 show ?thesis by simp
qed

section \<open>Where the Bee client is called\<close>

lemma pollLoop_no_upload: "filter startsUpload (fst (pollLoop rs i sp tg)) = []"
proof (induction rs arbitrary: i sp tg)
  case Nil
  then show ?case by simp
next
  case (Cons r rs)
  then show ?case
    by (cases r) (simp_all add: Let_def)
qed

lemma waitForFileSynced_no_upload:
  "filter startsUpload (fst (waitForFileSynced tg rs)) = []"
proof (cases tg)
  case None
  then show ?thesis by (simp add: waitForFileSynced_def)
next
  case (Some t)
  then show ?thesis
    by (simp add: fst_waitForFileSynced pollLoop_no_upload split: sum.splits)
qed

lemma updateFeedAndPrint_no_upload:
  "filter startsUpload (fst (updateFeedAndPrint w stamp r)) = []"
  by (simp add: updateFeedAndPrint_def writeFeed_def fst_bind snd_bind split: sum.splits)

text \<open>
  \<open>upload\<close> creates a tag only after a batch was selected, and uploads only after the
  tag was created; it does each at most once.
\<close>

lemma upload_starts:
  "filter startsUpload (fst (upload w)) =
     (case postageBatches w of
        Inl e \<Rightarrow> []
      | Inr bs \<Rightarrow>
          (case snd (selectBatch bs) of
             Inl s \<Rightarrow> []
           | Inr b \<Rightarrow>
               CreateTag #
                 (case createTagResult w of
                    Inl e \<Rightarrow> []
                  | Inr tg \<Rightarrow> [UploadFiles (batchID b) OUT_DIR (uploadOptions tg)])))"
  by (simp add: upload_def fst_bind snd_bind waitForFileSynced_no_upload
        updateFeedAndPrint_no_upload split: sum.splits)

lemma upload_starts_batch:
  assumes "ev \<in> set (filter startsUpload (fst (upload w)))"
  shows "\<exists>bs b. postageBatches w = Inr bs \<and> snd (selectBatch bs) = Inr b
           \<and> (ev = CreateTag \<or>
                (\<exists>tg. ev = UploadFiles (batchID b) OUT_DIR (uploadOptions tg)))"
proof (cases "postageBatches w")
  case (Inl e)
  with assms show ?thesis by (simp add: upload_starts)
next
  case bs: (Inr bs)
  show ?thesis
  proof (cases "snd (selectBatch bs)")
    case (Inl s)
    with bs assms show ?thesis by (simp add: upload_starts)
  next
    case (Inr b)
    with bs assms show ?thesis by (auto simp: upload_starts split: sum.splits)
  qed
qed

text \<open>
  Every call of the Bee client in a run of \<open>main\<close> is made by \<open>upload\<close>, and \<open>upload\<close>
  is only reached when \<open>fs.stat\<close> found the entry point.
\<close>

lemma main_beeCall:
  assumes "ev \<in> set (fst (main w))" and "beeCall ev"
  shows "ev \<in> set (fst (upload w)) \<and> statIndexHtml w = Inr ()"
  using assms
  by (auto simp: main_def fst_bind snd_bind getArtifactId_def downloadAndExtractArtifact_def
        checkIndexHtml_def split: sum.splits if_splits)

lemma main_starts_upload:
  assumes "ev \<in> set (fst (main w))" and "startsUpload ev"
  shows "\<exists>bs b. postageBatches w = Inr bs \<and> selectBatch bs = ([], Inr b)
           \<and> 0 < batchTTL b \<and> usable b \<and> b \<in> set bs
           \<and> (ev = CreateTag \<or> (\<exists>dir opts. ev = UploadFiles (batchID b) dir opts))"
proof -
  from assms(2) have "beeCall ev" by (cases ev) simp_all
  with assms main_beeCall have "ev \<in> set (filter startsUpload (fst (upload w)))" by simp
  from upload_starts_batch [OF this]
  obtain bs b where 1: "postageBatches w = Inr bs" and 2: "snd (selectBatch bs) = Inr b"
     and 3: "ev = CreateTag \<or> (\<exists>dir opts. ev = UploadFiles (batchID b) dir opts)"
    by blast
  from 2 have "selectBatch bs = ([], Inr b)" by (simp add: prod_eq_iff)
  moreover from 2 obtain ys where "filter eligible bs = b # ys"
    by (auto simp: selectBatch_def split: list.splits)
  then have "0 < batchTTL b \<and> usable b \<and> b \<in> set bs"
    by (metis eligible_def filter_eq_ConsD in_set_conv_decomp)
  ultimately show ?thesis using 1 3 by blast
qed

section \<open>Missing entry point\<close>

text \<open>
  C6. When \<open>fs.stat\<close> of \<open>index.html\<close> fails, the run ends without returning and without
  a single call of the Bee client: nothing is uploaded and no feed manifest or feed entry
  is written. When the steps before the check succeed, the run ends right after the
  check, with the message \<open>No index.html in ./artifact\<close> and exit code 1.
\<close>

theorem main_missing_index_html:
  assumes "statIndexHtml w = Inl e"
  shows "(\<forall>ev\<in>set (fst (main w)). \<not> beeCall ev)
       \<and> (\<exists>s. snd (main w) = Inl s)
       \<and> (rmResult w = Inr () \<and> snd (getArtifactId w) = Inr artifactId
            \<and> snd (downloadAndExtractArtifact w artifactId) = Inr ()
            \<and> statOutDir w = Inr True \<longrightarrow>
          snd (main w) = Inl (Exited 1)
            \<and> (\<exists>es. fst (main w) =
                  es @ [FsStat (OUT_DIR @ ''/index.html''),
                        ConsoleError [S ''No index.html in '', S OUT_DIR]]))"
proof (intro conjI)
  show "\<forall>ev\<in>set (fst (main w)). \<not> beeCall ev"
    using main_beeCall [of _ w] assms by auto
  show "\<exists>s. snd (main w) = Inl s"
    using assms
    by (simp add: main_def snd_bind checkIndexHtml_def split: sum.splits)
  show "rmResult w = Inr () \<and> snd (getArtifactId w) = Inr artifactId
            \<and> snd (downloadAndExtractArtifact w artifactId) = Inr ()
            \<and> statOutDir w = Inr True \<longrightarrow>
          snd (main w) = Inl (Exited 1)
            \<and> (\<exists>es. fst (main w) =
                  es @ [FsStat (OUT_DIR @ ''/index.html''),
                        ConsoleError [S ''No index.html in '', S OUT_DIR]])"
    using assms
    by (simp add: main_def snd_bind fst_bind checkIndexHtml_def)
qed

theorem main_missing_index_html_witness:
  "snd (main (exampleWorld\<lparr>statIndexHtml := Inl ''ENOENT''\<rparr>)) = Inl (Exited 1)
   \<and> filter beeCall (fst (main (exampleWorld\<lparr>statIndexHtml := Inl ''ENOENT''\<rparr>))) = []"
proof -
  let ?w = "exampleWorld\<lparr>statIndexHtml := Inl ''ENOENT''\<rparr>"
  have h: "statIndexHtml ?w = Inl ''ENOENT''" by simp
  have r: "rmResult ?w = Inr () \<and> snd (getArtifactId ?w) = Inr (Some 12)
            \<and> snd (downloadAndExtractArtifact ?w (Some 12)) = Inr ()
            \<and> statOutDir ?w = Inr True"
    by code_simp
  from main_missing_index_html [OF h, of "Some 12"] r
  show ?thesis by (simp add: filter_empty_conv)
qed

section \<open>No upload without a batch\<close>

text \<open>
  C7. When no batch of the list is eligible, \<open>upload\<close> throws
  \<open>No usable postage batch found\<close> right after listing the batches, the run of \<open>main\<close>
  does not return, and it neither creates a tag nor uploads. In every run, a tag
  creation or an upload is preceded by a selection that returned an eligible batch of the
  list, and the upload is paid with that batch.
\<close>

theorem upload_requires_batch:
  "(postageBatches w = Inr bs \<and> (\<forall>b\<in>set bs. \<not> (0 < batchTTL b \<and> usable b)) \<longrightarrow>
      upload w = ([GetAllPostageBatch], Inl (Threw ''No usable postage batch found''))
      \<and> (\<exists>s. snd (main w) = Inl s)
      \<and> filter startsUpload (fst (main w)) = [])
   \<and> (ev \<in> set (fst (main w)) \<and> startsUpload ev \<longrightarrow>
        (\<exists>bs b. postageBatches w = Inr bs \<and> selectBatch bs = ([], Inr b)
           \<and> 0 < batchTTL b \<and> usable b \<and> b \<in> set bs
           \<and> (ev = CreateTag \<or> (\<exists>dir opts. ev = UploadFiles (batchID b) dir opts))))"
proof (intro conjI impI)
  assume a: "postageBatches w = Inr bs \<and> (\<forall>b\<in>set bs. \<not> (0 < batchTTL b \<and> usable b))"
  then have f: "filter eligible bs = []"
    by (simp add: filter_empty_conv eligible_def)
  with a show u: "upload w = ([GetAllPostageBatch], Inl (Threw ''No usable postage batch found''))"
    by (simp add: upload_def bind_def call_def selectBatch_def throw_def emit_def)
  then show "\<exists>s. snd (main w) = Inl s"
    by (simp add: main_def snd_bind split: sum.splits)
  show "filter startsUpload (fst (main w)) = []"
    using main_starts_upload [of _ w] a by (fastforce simp: filter_empty_conv)
next
  assume "ev \<in> set (fst (main w)) \<and> startsUpload ev"
  then show "\<exists>bs b. postageBatches w = Inr bs \<and> selectBatch bs = ([], Inr b)
           \<and> 0 < batchTTL b \<and> usable b \<and> b \<in> set bs
           \<and> (ev = CreateTag \<or> (\<exists>dir opts. ev = UploadFiles (batchID b) dir opts))"
    using main_starts_upload by blast
qed

theorem upload_requires_batch_witness:
  "upload (exampleWorld\<lparr>postageBatches := Inr [expiredBatch]\<rparr>) =
     ([GetAllPostageBatch], Inl (Threw ''No usable postage batch found''))
   \<and> filter startsUpload (fst (main (exampleWorld\<lparr>postageBatches := Inr [expiredBatch]\<rparr>))) = []
   \<and> selectBatch [expiredBatch, liveBatch] = ([], Inr liveBatch)"
proof -
  let ?w = "exampleWorld\<lparr>postageBatches := Inr [expiredBatch]\<rparr>"
  have h1: "postageBatches ?w = Inr [expiredBatch]
              \<and> (\<forall>b\<in>set [expiredBatch]. \<not> (0 < batchTTL b \<and> usable b))"
    by (simp add: expiredBatch_def)
  from upload_requires_batch [of ?w "[expiredBatch]"] h1
  have 1: "upload ?w = ([GetAllPostageBatch], Inl (Threw ''No usable postage batch found''))
      \<and> filter startsUpload (fst (main ?w)) = []"
    by blast
  have h2: "CreateTag \<in> set (fst (main exampleWorld)) \<and> startsUpload CreateTag"
    by code_simp
  have p: "postageBatches exampleWorld = Inr [expiredBatch, liveBatch]"
    by (simp add: exampleWorld_def)
  from upload_requires_batch [of exampleWorld _ CreateTag] h2
  obtain bs b where "postageBatches exampleWorld = Inr bs" and s: "selectBatch bs = ([], Inr b)"
    and e: "0 < batchTTL b" and "b \<in> set bs"
    by blast
  with p have bs: "bs = [expiredBatch, liveBatch]" and "b \<in> set [expiredBatch, liveBatch]"
    by simp_all
  with e have "b = liveBatch" by (auto simp: expiredBatch_def)
  with s bs have "selectBatch [expiredBatch, liveBatch] = ([], Inr liveBatch)" by simp
  with 1 show ?thesis by simp
qed

section \<open>The options of the upload\<close>

text \<open>
  C10. Every upload of a run (of \<open>upload\<close>, hence of \<open>main\<close>) is made with index
  document \<open>index.html\<close>, error document \<open>404.html\<close>, \<open>pin\<close> on, \<open>encrypt\<close> off,
  \<open>deferred\<close> on and no redundancy level, whatever the environment holds.
\<close>

theorem upload_options_fixed:
  assumes "UploadFiles bid dir opts \<in> set (fst (upload w)) \<union> set (fst (main w))"
  shows "indexDocument opts = ''index.html'' \<and> errorDocument opts = ''404.html''
       \<and> pin opts = True \<and> encrypt opts = False \<and> deferred opts = True
       \<and> redundancyLevel opts = None"
proof -
  have "beeCall (UploadFiles bid dir opts)" by simp
  with assms main_beeCall
  have "UploadFiles bid dir opts \<in> set (filter startsUpload (fst (upload w)))"
    by auto
  from upload_starts_batch [OF this]
  obtain tg where "opts = uploadOptions tg"
    by auto
  then show ?thesis by (simp add: uploadOptions_def)
qed

theorem upload_options_fixed_witness:
  "UploadFiles ''b1'' OUT_DIR (uploadOptions (Some (snapshot 0))) \<in> set (fst (main exampleWorld))
   \<and> indexDocument (uploadOptions (Some (snapshot 0))) = ''index.html''
   \<and> errorDocument (uploadOptions (Some (snapshot 0))) = ''404.html''
   \<and> pin (uploadOptions (Some (snapshot 0))) = True
   \<and> encrypt (uploadOptions (Some (snapshot 0))) = False
   \<and> deferred (uploadOptions (Some (snapshot 0))) = True
   \<and> redundancyLevel (uploadOptions (Some (snapshot 0))) = None"
proof -
  have m: "UploadFiles ''b1'' OUT_DIR (uploadOptions (Some (snapshot 0)))
             \<in> set (fst (main exampleWorld))"
    by code_simp
  then have h: "UploadFiles ''b1'' OUT_DIR (uploadOptions (Some (snapshot 0)))
             \<in> set (fst (upload exampleWorld)) \<union> set (fst (main exampleWorld))"
    by simp
  from upload_options_fixed [OF h] m show ?thesis by blast
qed

end
